theory Spec2Isabelle
  imports Complex_Main "HOL-Library.Word"
begin

section \<open>Data model\<close>

text \<open>
  A decoded grayscale image (PIL mode \<open>L\<close>, or the NumPy array made from it) is its size and
  its rows of 8-bit samples, top row first. \<open>img.size\<close> is \<open>(width, height)\<close>; the array made
  from it has shape \<open>(height, width)\<close>, so the sample at column \<open>x\<close> of row \<open>y\<close> is
  \<open>pixels img ! y ! x\<close>.

  Each transform is modelled from the decoded image to the image it hands to \<open>save\<close>:
  \<open>Image.open(path).convert('L')\<close> before it and \<open>output.save(path)\<close> after it are Pillow's
  codecs, and the \<open>print\<close> that follows reports the path.
\<close>

type_synonym pixel = "8 word"

record pil_image =
  width :: nat
  height :: nat
  pixels :: "pixel list list"

text \<open>Every image the decoder hands over has \<open>height\<close> rows of \<open>width\<close> samples.\<close>

definition wf_image :: "pil_image \<Rightarrow> bool" where
  "wf_image img =
     (length (pixels img) = height img \<and>
      list_all (\<lambda>row. length row = width img) (pixels img))"

text \<open>The image whose samples all have one value, for the scenarios of the specification.\<close>

definition uniform_image :: "nat \<Rightarrow> nat \<Rightarrow> pixel \<Rightarrow> pil_image" where
  "uniform_image w h v = \<lparr>width = w, height = h, pixels = replicate h (replicate w v)\<rparr>"


text \<open>The only values a one-bit output may hold.\<close>

definition binary_image :: "pil_image \<Rightarrow> bool" where
  "binary_image img = list_all (list_all (\<lambda>p. p = 0 \<or> p = 255)) (pixels img)"

text \<open>
  The exceptions the transforms can raise. None of the three functions raises one of its
  own; \<open>ValueError\<close> comes from \<open>range\<close> (a zero step) and from \<open>Image.new\<close> (a negative
  size).
\<close>

datatype error = ValueError

section \<open>Floating-point arithmetic\<close>

text \<open>
  Python's \<open>float\<close> and NumPy's \<open>float64\<close> are IEEE binary64: each operation returns the
  exact result of the operation on its operands, rounded. The rounding is a parameter
  \<open>fl\<close> of the model, a function on the rationals; the model follows the source operation
  by operation and applies \<open>fl\<close> at each one. Overflow, infinities and NaN are outside the
  model: the sizes and parameters of a real image stay far below the binary64 range.
  Converting an 8-bit sample to a float is exact and is written without \<open>fl\<close>.
\<close>

text \<open>Exact arithmetic: the rounding that rounds nothing.\<close>

definition exact :: "rat \<Rightarrow> rat" where
  "exact v = v"

text \<open>
  What binary64 guarantees and the scenarios of the specification need: a rational
  \<open>k / 64\<close> with \<open>k\<close> a 53-bit integer is a float, so rounding leaves it alone.
\<close>

definition float_exact :: "(rat \<Rightarrow> rat) \<Rightarrow> bool" where
  "float_exact fl = (\<forall>k::int. \<bar>k\<bar> \<le> 2 ^ 53 \<longrightarrow> fl (of_int k / 64) = of_int k / 64)"

text \<open>Rounding never reverses an order, and does not make zero negative.\<close>

definition float_mono :: "(rat \<Rightarrow> rat) \<Rightarrow> bool" where
  "float_mono fl = ((\<forall>a b. a \<le> b \<longrightarrow> fl a \<le> fl b) \<and> 0 \<le> fl 0)"

section \<open>Bayer dithering\<close>

text \<open>The threshold matrix as the source writes it, before scaling.\<close>

definition bayer_raw :: "int list list" where
  "bayer_raw =
     [[ 0, 32,  8, 40,  2, 34, 10, 42],
      [48, 16, 56, 24, 50, 18, 58, 26],
      [12, 44,  4, 36, 14, 46,  6, 38],
      [60, 28, 52, 20, 62, 30, 54, 22],
      [ 3, 35, 11, 43,  1, 33,  9, 41],
      [51, 19, 59, 27, 49, 17, 57, 25],
      [15, 47,  7, 39, 13, 45,  5, 37],
      [63, 31, 55, 23, 61, 29, 53, 21]]"

text \<open>\<^verbatim>\<open>bayer_matrix = (bayer_matrix / 64.0) * 255.0\<close>: two float operations per entry.\<close>

definition bayer_matrix :: "(rat \<Rightarrow> rat) \<Rightarrow> rat list list" where
  "bayer_matrix fl = map (map (\<lambda>v. fl (fl (of_int v / 64) * 255))) bayer_raw"

text \<open>
  \<^verbatim>\<open>output_array[y, x] = v\<close>. NumPy raises IndexError outside the array; both loops of
  \<open>bayer_dither\<close> stay inside it (\<open>fold_rows\<close> below).
\<close>

definition set_px :: "'a list list \<Rightarrow> nat \<Rightarrow> nat \<Rightarrow> 'a \<Rightarrow> 'a list list" where
  "set_px arr y x v = arr[y := (arr ! y)[x := v]]"

text \<open>
  \<^verbatim>\<open>
  img_array = np.array(img, dtype=float)
  height, width = img_array.shape
  output_array = np.zeros((height, width), dtype=np.uint8)
  for y in range(height):
      for x in range(width):
          threshold = bayer_matrix[y % 8, x % 8]
          output_array[y, x] = 255 if img_array[y, x] > threshold else 0
  output = Image.fromarray(output_array, mode='L')
  \<close>
\<close>

definition bayer_dither :: "(rat \<Rightarrow> rat) \<Rightarrow> pil_image \<Rightarrow> pil_image" where
  "bayer_dither fl img =
     (let img_array = map (map (\<lambda>p. (of_nat (unat p) :: rat))) (pixels img);
          h = height img;
          w = width img;
          output_array =
            fold (\<lambda>y out.
                fold (\<lambda>x out.
                    let threshold = bayer_matrix fl ! (y mod 8) ! (x mod 8)
                    in set_px out y x (if img_array ! y ! x > threshold then 255 else (0::pixel)))
                  [0..<w] out)
              [0..<h] (replicate h (replicate w 0))
      in \<lparr>width = w, height = h, pixels = output_array\<rparr>)"

text \<open>
  The matrix of section 6 of the specification, written from the specification's text, for
  comparison with \<open>bayer_raw\<close>.
\<close>

definition spec_matrix :: "nat list list" where
  "spec_matrix =
     [[ 0, 32,  8, 40,  2, 34, 10, 42],
      [48, 16, 56, 24, 50, 18, 58, 26],
      [12, 44,  4, 36, 14, 46,  6, 38],
      [60, 28, 52, 20, 62, 30, 54, 22],
      [ 3, 35, 11, 43,  1, 33,  9, 41],
      [51, 19, 59, 27, 49, 17, 57, 25],
      [15, 47,  7, 39, 13, 45,  5, 37],
      [63, 31, 55, 23, 61, 29, 53, 21]]"

section \<open>Posterize\<close>

text \<open>
  \<^verbatim>\<open>output_array = np.where(img_array > threshold, 255, 0).astype(np.uint8)\<close>

  \<open>img_array\<close> holds unsigned 8-bit samples and \<open>threshold\<close> is a Python integer of any
  size; the comparison is the comparison of their values. No statement of the function
  raises on a decoded image, so the model is a plain function.
\<close>

definition posterize :: "pil_image \<Rightarrow> int \<Rightarrow> pil_image" where
  "posterize img threshold =
     \<lparr>width = width img, height = height img,
      pixels = map (map (\<lambda>p. if uint p > threshold then 255 else 0)) (pixels img)\<rparr>"

section \<open>Halftone\<close>

subsection \<open>What the function takes from Python, Pillow and NumPy\<close>

text \<open>
  \<^verbatim>\<open>range(start, stop, step)\<close> raises ValueError on a zero step; otherwise its length is
  computed as CPython does, and it is empty when the step points away from \<open>stop\<close>.
\<close>

definition py_range :: "int \<Rightarrow> int \<Rightarrow> int \<Rightarrow> error + int list" where
  "py_range start stop step =
     (if step = 0 then Inl ValueError
      else
        let lo = (if step > 0 then start else stop);
            hi = (if step > 0 then stop else start);
            n = (if lo \<ge> hi then 0 else (hi - lo - 1) div \<bar>step\<bar> + 1)
        in Inr (map (\<lambda>k. start + int k * step) [0..<nat n]))"

text \<open>\<^verbatim>\<open>Image.new('L', (w, h), color)\<close> raises ValueError on a negative width or height.\<close>

definition new_image :: "int \<Rightarrow> int \<Rightarrow> pixel \<Rightarrow> error + pil_image" where
  "new_image w h color =
     (if w < 0 \<or> h < 0 then Inl ValueError
      else Inr \<lparr>width = nat w, height = nat h,
                pixels = replicate (nat h) (replicate (nat w) color)\<rparr>)"

text \<open>
  \<^verbatim>\<open>img.crop((x0, y0, x1, y1))\<close> for a box inside the image, which is the only kind
  \<open>halftone\<close> asks for: its boxes start at a cell origin inside the image and are cut off
  at the image's width and height.
\<close>

definition crop :: "pil_image \<Rightarrow> int \<times> int \<times> int \<times> int \<Rightarrow> pil_image" where
  "crop img box =
     (case box of (x0, y0, x1, y1) \<Rightarrow>
        \<lparr>width = nat (x1 - x0), height = nat (y1 - y0),
         pixels = map (\<lambda>row. take (nat (x1 - x0)) (drop (nat x0) row))
                    (take (nat (y1 - y0)) (drop (nat y0) (pixels img)))\<rparr>)"

text \<open>
  \<^verbatim>\<open>np.array(region).mean()\<close>: the samples are summed in float64, which is exact for
  integers, and the sum is divided by their number. The regions of \<open>halftone\<close> are never
  empty (\<open>cell_not_empty\<close> below), so the division by zero of an empty array is not met.
\<close>

definition np_mean :: "(rat \<Rightarrow> rat) \<Rightarrow> pil_image \<Rightarrow> rat" where
  "np_mean fl region =
     fl (of_nat (sum_list (map unat (concat (pixels region))))
         / of_nat (length (concat (pixels region))))"

text \<open>
  \<^verbatim>\<open>draw.ellipse([x0, y0, x1, y1], fill=c)\<close> writes \<open>c\<close> into the pixels Pillow's rasteriser
  finds inside the ellipse of that bounding box, and leaves the others. Which pixels those
  are is Pillow's business: the rasteriser is the parameter \<open>inside\<close>, and every theorem
  holds for whatever it selects. Pillow wants the corners of the box in order; the boxes
  of \<open>halftone\<close> reach a positive radius to each side of a centre, so they are
  (\<open>box_ordered\<close> below).
\<close>

type_synonym box = "rat \<times> rat \<times> rat \<times> rat"

definition ellipse :: "(box \<Rightarrow> nat \<Rightarrow> nat \<Rightarrow> bool) \<Rightarrow> box \<Rightarrow> pixel \<Rightarrow> pil_image \<Rightarrow> pil_image" where
  "ellipse inside xy fill img =
     img\<lparr>pixels :=
           map (\<lambda>y. map (\<lambda>x. if inside xy x y then fill else pixels img ! y ! x)
                         [0..<width img])
               [0..<height img]\<rparr>"

text \<open>
  A rasteriser to evaluate concrete images with: a pixel is inside when its centre is in
  the ellipse inscribed in the box.
\<close>

definition centre_inside :: "box \<Rightarrow> nat \<Rightarrow> nat \<Rightarrow> bool" where
  "centre_inside xy x y =
     (case xy of (x0, y0, x1, y1) \<Rightarrow>
        let rx = (x1 - x0) / 2; ry = (y1 - y0) / 2;
            dx = of_nat x + 1 / 2 - (x0 + x1) / 2;
            dy = of_nat y + 1 / 2 - (y0 + y1) / 2
        in (dx * ry)\<^sup>2 + (dy * rx)\<^sup>2 \<le> (rx * ry)\<^sup>2)"

subsection \<open>The function\<close>

text \<open>
  \<^verbatim>\<open>dot_radius = ((255 - avg_brightness) / 255) * (dot_size * scale / 2)\<close>

  \<open>dot_size * scale\<close> is a product of Python integers, exact; the other four operations are
  float operations.
\<close>

definition dot_radius :: "(rat \<Rightarrow> rat) \<Rightarrow> int \<Rightarrow> int \<Rightarrow> rat \<Rightarrow> rat" where
  "dot_radius fl dot_size scale avg_brightness =
     fl (fl (fl (255 - avg_brightness) / 255) * fl (of_int (dot_size * scale) / 2))"

text \<open>\<^verbatim>\<open>(x + dot_size / 2) * scale\<close>, the integers \<open>x\<close> and \<open>scale\<close> converted to floats.\<close>

definition center :: "(rat \<Rightarrow> rat) \<Rightarrow> int \<Rightarrow> int \<Rightarrow> int \<Rightarrow> rat" where
  "center fl x dot_size scale =
     fl (fl (fl (of_int x) + fl (of_int dot_size / 2)) * fl (of_int scale))"

text \<open>
  The body of the two loops, for the cell at \<open>(x, y)\<close>:
  \<^verbatim>\<open>
  region = img.crop((x, y, min(x + dot_size, width), min(y + dot_size, height)))
  avg_brightness = np.array(region).mean()
  dot_radius = ((255 - avg_brightness) / 255) * (dot_size * scale / 2)
  if dot_radius > 0.5:
      center_x = (x + dot_size / 2) * scale
      center_y = (y + dot_size / 2) * scale
      draw.ellipse([center_x - dot_radius, center_y - dot_radius,
                    center_x + dot_radius, center_y + dot_radius], fill=0)
  \<close>
\<close>

definition halftone_cell ::
  "(rat \<Rightarrow> rat) \<Rightarrow> (box \<Rightarrow> nat \<Rightarrow> nat \<Rightarrow> bool) \<Rightarrow> pil_image \<Rightarrow> int \<Rightarrow> int \<Rightarrow> int \<Rightarrow> int
     \<Rightarrow> pil_image \<Rightarrow> pil_image" where
  "halftone_cell fl inside img dot_size scale y x output =
     (let region = crop img (x, y, min (x + dot_size) (int (width img)),
                                   min (y + dot_size) (int (height img)));
          avg_brightness = np_mean fl region;
          r = dot_radius fl dot_size scale avg_brightness
      in if r > 1 / 2 then
           let center_x = center fl x dot_size scale;
               center_y = center fl y dot_size scale
           in ellipse inside
                (fl (center_x - r), fl (center_y - r), fl (center_x + r), fl (center_y + r))
                0 output
         else output)"

text \<open>
  \<^verbatim>\<open>
  for y in range(0, height, dot_size):
      for x in range(0, width, dot_size):
          ...
  \<close>
  The inner \<open>range\<close> is built once per row, so a row is what can raise.
\<close>

fun halftone_rows ::
  "(rat \<Rightarrow> rat) \<Rightarrow> (box \<Rightarrow> nat \<Rightarrow> nat \<Rightarrow> bool) \<Rightarrow> pil_image \<Rightarrow> int \<Rightarrow> int \<Rightarrow> int list
     \<Rightarrow> pil_image \<Rightarrow> error + pil_image" where
  "halftone_rows fl inside img dot_size scale [] output = Inr output"
| "halftone_rows fl inside img dot_size scale (y # ys) output =
     (case py_range 0 (int (width img)) dot_size of
        Inl e \<Rightarrow> Inl e
      | Inr xs \<Rightarrow>
          halftone_rows fl inside img dot_size scale ys
            (fold (halftone_cell fl inside img dot_size scale y) xs output))"

text \<open>
  \<^verbatim>\<open>
  width, height = img.size
  output = Image.new('L', (width * scale, height * scale), 255)
  draw = ImageDraw.Draw(output)
  for y in range(0, height, dot_size): ...
  \<close>
  The result is the canvas handed to \<open>output.save\<close>.
\<close>

definition halftone ::
  "(rat \<Rightarrow> rat) \<Rightarrow> (box \<Rightarrow> nat \<Rightarrow> nat \<Rightarrow> bool) \<Rightarrow> pil_image \<Rightarrow> int \<Rightarrow> int
     \<Rightarrow> error + pil_image" where
  "halftone fl inside img dot_size scale =
     (case new_image (int (width img) * scale) (int (height img) * scale) 255 of
        Inl e \<Rightarrow> Inl e
      | Inr output \<Rightarrow>
          (case py_range 0 (int (height img)) dot_size of
             Inl e \<Rightarrow> Inl e
           | Inr ys \<Rightarrow> halftone_rows fl inside img dot_size scale ys output))"

subsection \<open>The renderer as the specification describes it\<close>



text \<open>The arithmetic mean of the samples of the cell at \<open>(cell_x, cell_y)\<close>, cut off or not.\<close>

definition spec_avg_brightness :: "(rat \<Rightarrow> rat) \<Rightarrow> pil_image \<Rightarrow> nat \<Rightarrow> nat \<Rightarrow> nat \<Rightarrow> rat" where
  "spec_avg_brightness fl img d cell_x cell_y =
     (let x1 = min (cell_x + d) (width img);
          y1 = min (cell_y + d) (height img)
      in fl (of_nat (\<Sum>i = cell_y..<y1. \<Sum>j = cell_x..<x1. unat (pixels img ! i ! j))
             / of_nat ((x1 - cell_x) * (y1 - cell_y))))"

definition spec_dot_radius :: "(rat \<Rightarrow> rat) \<Rightarrow> nat \<Rightarrow> nat \<Rightarrow> rat \<Rightarrow> rat" where
  "spec_dot_radius fl d sc avg_brightness =
     fl (fl (fl (255 - avg_brightness) / 255) * fl (of_nat (d * sc) / 2))"

text \<open>One coordinate of the centre: \<open>(cell_x + dot_size / 2) * scale\<close>.\<close>

definition spec_center :: "(rat \<Rightarrow> rat) \<Rightarrow> nat \<Rightarrow> nat \<Rightarrow> nat \<Rightarrow> rat" where
  "spec_center fl c d sc = fl (fl (fl (of_nat c) + fl (of_nat d / 2)) * fl (of_nat sc))"

text \<open>
  The filled black circle of radius \<open>r\<close> centred at \<open>(cx, cy)\<close>: the ellipse whose bounding
  box reaches \<open>r\<close> to each side of the centre.
\<close>

definition filled_circle ::
  "(rat \<Rightarrow> rat) \<Rightarrow> (box \<Rightarrow> nat \<Rightarrow> nat \<Rightarrow> bool) \<Rightarrow> rat \<Rightarrow> rat \<Rightarrow> rat \<Rightarrow> pil_image \<Rightarrow> pil_image" where
  "filled_circle fl inside cx cy r canvas =
     ellipse inside (fl (cx - r), fl (cy - r), fl (cx + r), fl (cy + r)) 0 canvas"

text \<open>A cell gets its dot if and only if the radius exceeds one half.\<close>

definition spec_dot ::
  "(rat \<Rightarrow> rat) \<Rightarrow> (box \<Rightarrow> nat \<Rightarrow> nat \<Rightarrow> bool) \<Rightarrow> pil_image \<Rightarrow> nat \<Rightarrow> nat \<Rightarrow> nat \<times> nat
     \<Rightarrow> pil_image \<Rightarrow> pil_image" where
  "spec_dot fl inside img d sc cell canvas =
     (let r = spec_dot_radius fl d sc (spec_avg_brightness fl img d (fst cell) (snd cell))
      in if r > 1 / 2
         then filled_circle fl inside
                (spec_center fl (fst cell) d sc) (spec_center fl (snd cell) d sc) r canvas
         else canvas)"


section \<open>The loops that fill an array\<close>

lemma fold_row:
  assumes "y < length arr" "n \<le> length (arr ! y)"
  shows "fold (\<lambda>x out. set_px out y x (f x)) [0..<n] arr =
           arr[y := map f [0..<n] @ drop n (arr ! y)]"
  using assms(2)
proof (induction n)
  case 0
  then show ?case by simp
next
  case (Suc n)
  then have n: "n < length (arr ! y)" by simp
  have "(map f [0..<n] @ drop n (arr ! y))[n := f n] =
          map f [0..<n] @ f n # drop (Suc n) (arr ! y)"
    using n by (simp add: list_update_append Cons_nth_drop_Suc [symmetric])
  with Suc assms(1) show ?case
    by (simp add: set_px_def)
qed

lemma fold_rows:
  assumes "list_all (\<lambda>row. length row = w) arr" "m \<le> length arr"
  shows "fold (\<lambda>y out. fold (\<lambda>x out. set_px out y x (f y x)) [0..<w] out) [0..<m] arr =
           map (\<lambda>y. map (f y) [0..<w]) [0..<m] @ drop m arr"
  using assms(2)
proof (induction m)
  case 0
  then show ?case by simp
next
  case (Suc m)
  let ?done = "map (\<lambda>y. map (f y) [0..<w]) [0..<m]"
  let ?mid = "?done @ drop m arr"
  from Suc have m: "m < length arr" by simp
  with assms(1) have lw: "length (arr ! m) = w"
    by (simp add: list_all_length)
  have at: "?mid ! m = arr ! m"
    using m by (simp add: nth_append)
  have "fold (\<lambda>x out. set_px out m x (f m x)) [0..<w] ?mid =
          ?mid[m := map (f m) [0..<w] @ drop w (?mid ! m)]"
    using m lw at by (intro fold_row) simp_all
  also have "\<dots> = ?done @ map (f m) [0..<w] # drop (Suc m) arr"
    using m lw at by (simp add: list_update_append Cons_nth_drop_Suc [symmetric])
  finally show ?case
    using Suc by simp
qed

section \<open>Properties of posterize\<close>

lemma posterize_pixel:
  assumes "wf_image img" "y < height img" "x < width img"
  shows "pixels (posterize img t) ! y ! x =
           (if uint (pixels img ! y ! x) > t then 255 else 0)"
proof -
  from assms have ly: "y < length (pixels img)"
    by (simp add: wf_image_def)
  with assms have "length (pixels img ! y) = width img"
    by (simp add: wf_image_def list_all_length)
  with assms ly show ?thesis
    by (simp add: posterize_def)
qed


lemma posterize_binary: "binary_image (posterize img t)"
  by (simp add: binary_image_def posterize_def list_all_length)

lemma uniform_wf: "wf_image (uniform_image w h v)"
  by (simp add: wf_image_def uniform_image_def list_all_length)

section \<open>Properties of the dither loops\<close>

lemma bayer_dither_rows:
  "bayer_dither fl img =
     \<lparr>width = width img, height = height img,
      pixels =
        map (\<lambda>y. map (\<lambda>x. if map (map (\<lambda>p. (of_nat (unat p) :: rat))) (pixels img) ! y ! x
                                  > bayer_matrix fl ! (y mod 8) ! (x mod 8)
                             then 255 else 0)
                       [0..<width img])
            [0..<height img]\<rparr>"
proof -
  have "list_all (\<lambda>row. length row = width img)
          (replicate (height img) (replicate (width img) (0::pixel)))"
    by (simp add: list_all_length)
  then show ?thesis
    unfolding bayer_dither_def Let_def
    by (subst fold_rows [where w = "width img"]) simp_all
qed


lemma bayer_dither_binary: "binary_image (bayer_dither fl img)"
  by (simp add: bayer_dither_rows binary_image_def list_all_length)

lemma uniform_size:
  "width (uniform_image w h v) = w" "height (uniform_image w h v) = h"
  by (simp_all add: uniform_image_def)

lemma uniform_pixel: "y < h \<Longrightarrow> x < w \<Longrightarrow> pixels (uniform_image w h v) ! y ! x = v"
  by (simp add: uniform_image_def)

lemma list_all_nth: "list_all P xs \<Longrightarrow> i < length xs \<Longrightarrow> P (xs ! i)"
  by (simp add: list_all_length)

section \<open>The threshold matrix\<close>

lemma bayer_raw_eq_spec: "bayer_raw = map (map int) spec_matrix"
  by (simp add: bayer_raw_def spec_matrix_def)

lemma spec_matrix_len: "length spec_matrix = 8"
  by (simp add: spec_matrix_def)

lemma spec_matrix_rows: "list_all (\<lambda>row. length row = 8) spec_matrix"
  by (simp add: spec_matrix_def)

lemma spec_matrix_range: "list_all (list_all (\<lambda>v. v \<le> 63)) spec_matrix"
  by (simp add: spec_matrix_def)

text \<open>Both float operations on an entry are exact: \<open>k / 64\<close> and \<open>255 k / 64\<close> are floats.\<close>

lemma scaled_exact:
  assumes "float_exact fl" "0 \<le> k" "k \<le> 63"
  shows "fl (fl (of_int k / 64) * 255) = of_int k * 255 / 64"
proof -
  have "\<bar>k\<bar> \<le> 2 ^ 53" using assms(2,3) by simp
  with assms(1) have a: "fl (of_int k / 64) = of_int k / 64"
    unfolding float_exact_def by blast
  have "\<bar>k * 255\<bar> \<le> 2 ^ 53" using assms(2,3) by simp
  with assms(1) have c: "fl (of_int (k * 255) / 64) = of_int (k * 255) / 64"
    unfolding float_exact_def by blast
  have b: "of_int k / 64 * 255 = (of_int (k * 255) / 64 :: rat)" by simp
  have "fl (fl (of_int k / 64) * 255) = fl (of_int (k * 255) / 64)"
    by (simp only: a b)
  also have "\<dots> = of_int (k * 255) / 64" by (rule c)
  also have "\<dots> = of_int k * 255 / 64" by simp
  finally show ?thesis .
qed

lemma bayer_matrix_entry:
  assumes "float_exact fl" "i < 8" "j < 8"
  shows "bayer_matrix fl ! i ! j = of_nat (spec_matrix ! i ! j) * 255 / 64"
proof -
  have li: "i < length spec_matrix"
    using assms(2) by (simp only: spec_matrix_len)
  have "length (spec_matrix ! i) = 8"
    using spec_matrix_rows li by (rule list_all_nth)
  with assms(3) have lj: "j < length (spec_matrix ! i)" by simp
  have "list_all (\<lambda>v. v \<le> 63) (spec_matrix ! i)"
    using spec_matrix_range li by (rule list_all_nth)
  then have r: "spec_matrix ! i ! j \<le> 63"
    using lj by (rule list_all_nth)
  have "bayer_matrix fl ! i ! j = fl (fl (of_int (int (spec_matrix ! i ! j)) / 64) * 255)"
    using li lj unfolding bayer_matrix_def bayer_raw_eq_spec by simp
  also have "\<dots> = of_int (int (spec_matrix ! i ! j)) * 255 / 64"
    using assms(1) r by (intro scaled_exact) simp_all
  finally show ?thesis by simp
qed

lemma float_exact_exact: "float_exact exact"
  by (simp add: float_exact_def exact_def)

section \<open>Posterize at the ends of the range\<close>



section \<open>The canvas of halftone\<close>

subsection \<open>range and Image.new\<close>




subsection \<open>What a dot leaves unchanged\<close>




lemma box_ordered:
  assumes "float_mono fl" "0 \<le> r"
  shows "fl (c - r) \<le> fl (c + r)"
proof -
  from assms(2) have "c - r \<le> c + r" by simp
  with assms(1) show ?thesis
    unfolding float_mono_def by blast
qed



lemma halftone_rows_fold:
  assumes "py_range 0 (int (width img)) ds = Inr xs"
  shows "halftone_rows fl inside img ds sc ys out =
           Inr (fold (\<lambda>y. fold (halftone_cell fl inside img ds sc y) xs) ys out)"
  using assms by (induction ys arbitrary: out) simp_all

lemma halftone_rows_empty: "halftone_rows fl inside img ds sc [] out = Inr out"
  by simp


lemma new_image_white:
  assumes "0 \<le> sc"
  shows "new_image (int w * sc) (int h * sc) 255 = Inr (uniform_image (w * nat sc) (h * nat sc) 255)"
proof -
  from assms have "0 \<le> int w * sc" "0 \<le> int h * sc"
    by simp_all
  then show ?thesis
    by (simp add: new_image_def uniform_image_def nat_mult_distrib)
qed


lemma halftone_unfold:
  assumes "0 \<le> sc" "py_range 0 (int (height img)) ds = Inr ys"
    "py_range 0 (int (width img)) ds = Inr xs"
  shows "halftone fl inside img ds sc =
           Inr (fold (\<lambda>y. fold (halftone_cell fl inside img ds sc y) xs) ys
                  (uniform_image (width img * nat sc) (height img * nat sc) 255))"
  using assms by (simp add: halftone_def new_image_white halftone_rows_fold)




section \<open>Halftone against the specification\<close>

subsection \<open>The cells\<close>

lemma take_drop_nth:
  assumes "k + n \<le> length xs"
  shows "take n (drop k xs) = map (\<lambda>i. xs ! i) [k..<k + n]"
  using assms by (auto simp: list_eq_iff_nth_eq)




subsection \<open>The average of a cell\<close>

lemma crop_rows:
  assumes "wf_image img" "x \<le> x1" "x1 \<le> width img" "y \<le> y1" "y1 \<le> height img"
  shows "pixels (crop img (int x, int y, int x1, int y1)) =
           map (\<lambda>i. map (\<lambda>j. pixels img ! i ! j) [x..<x1]) [y..<y1]"
proof -
  have rows: "take (y1 - y) (drop y (pixels img)) = map (\<lambda>i. pixels img ! i) [y..<y1]"
    using assms(1,4,5) take_drop_nth [of y "y1 - y" "pixels img"]
    by (simp add: wf_image_def)
  have row: "take (x1 - x) (drop x (pixels img ! i)) = map (\<lambda>j. pixels img ! i ! j) [x..<x1]"
    if "i \<in> set [y..<y1]" for i
  proof -
    from that assms(1,5) have "length (pixels img ! i) = width img"
      by (simp add: wf_image_def list_all_length)
    with assms(2,3) show ?thesis
      using take_drop_nth [of x "x1 - x" "pixels img ! i"] by simp
  qed
  have "pixels (crop img (int x, int y, int x1, int y1)) =
          map (\<lambda>row. take (x1 - x) (drop x row)) (take (y1 - y) (drop y (pixels img)))"
    using assms(2,4) by (simp add: crop_def nat_diff_distrib')
  also have "\<dots> = map (\<lambda>i. take (x1 - x) (drop x (pixels img ! i))) [y..<y1]"
    by (simp only: rows map_map comp_def)
  also have "\<dots> = map (\<lambda>i. map (\<lambda>j. pixels img ! i ! j) [x..<x1]) [y..<y1]"
    using row by (intro map_cong refl)
  finally show ?thesis .
qed

lemma grid_sum:
  "sum_list (map g (concat (map (\<lambda>i. map (f i) [x..<x1]) [y..<y1]))) =
     (\<Sum>i = y..<y1. \<Sum>j = x..<x1. g (f i j) :: nat)"
proof -
  have c: "sum_list (concat xss) = sum_list (map sum_list xss)" for xss :: "nat list list"
    by (induction xss) simp_all
  show ?thesis
    by (simp add: map_concat c comp_def interv_sum_list_conv_sum_set_nat)
qed

lemma grid_size:
  "length (concat (map (\<lambda>i. map (f i) [x..<x1]) [y..<y1])) = (x1 - x) * (y1 - y)"
  by (simp add: length_concat comp_def sum_list_triv)

lemma region_mean:
  assumes "wf_image img" "x < width img" "y < height img"
  shows "np_mean fl (crop img (int x, int y, min (int x + int d) (int (width img)),
                                  min (int y + int d) (int (height img)))) =
           spec_avg_brightness fl img d x y"
proof -
  let ?x1 = "min (x + d) (width img)" and ?y1 = "min (y + d) (height img)"
  have m: "min (int x + int d) (int (width img)) = int ?x1"
    "min (int y + int d) (int (height img)) = int ?y1"
    by simp_all
  have "pixels (crop img (int x, int y, int ?x1, int ?y1)) =
          map (\<lambda>i. map (\<lambda>j. pixels img ! i ! j) [x..<?x1]) [y..<?y1]"
    using assms by (intro crop_rows) simp_all
  then show ?thesis
    unfolding m np_mean_def spec_avg_brightness_def Let_def
    by (simp only: grid_sum grid_size)
qed

lemma cell_not_empty:
  assumes "x < width img" "y < height img" "0 < d"
  shows "0 < (min (x + d) (width img) - x) * (min (y + d) (height img) - y)"
  using assms by simp

subsection \<open>One cell, one dot\<close>

lemma radius_spec:
  assumes "0 \<le> ds" "0 \<le> sc"
  shows "dot_radius fl ds sc a = spec_dot_radius fl (nat ds) (nat sc) a"
  using assms by (simp add: dot_radius_def spec_dot_radius_def)

lemma center_spec:
  assumes "0 \<le> ds" "0 \<le> sc"
  shows "center fl (int c) ds sc = spec_center fl c (nat ds) (nat sc)"
  using assms by (simp add: center_def spec_center_def)

lemma halftone_cell_spec:
  assumes "wf_image img" "x < width img" "y < height img" "0 \<le> ds" "0 \<le> sc"
  shows "halftone_cell fl inside img ds sc (int y) (int x) out =
           spec_dot fl inside img (nat ds) (nat sc) (x, y) out"
proof -
  from assms(4) have ds: "ds = int (nat ds)" by simp
  have "np_mean fl (crop img (int x, int y, min (int x + ds) (int (width img)),
                                  min (int y + ds) (int (height img)))) =
          spec_avg_brightness fl img (nat ds) x y"
    using region_mean [OF assms(1-3), of fl "nat ds"] ds by simp
  then show ?thesis
    unfolding halftone_cell_def spec_dot_def Let_def filled_circle_def
    by (simp only: radius_spec [OF assms(4,5)] center_spec [OF assms(4,5)] fst_conv snd_conv)
qed



subsection \<open>Small numbers are floats\<close>

lemma float_exact_int:
  assumes "float_exact fl" "\<bar>k\<bar> \<le> 2 ^ 47"
  shows "fl (of_int k) = of_int k"
proof -
  have "\<bar>k * 64\<bar> \<le> 2 ^ 53" using assms(2) by simp
  with assms(1) have "fl (of_int (k * 64) / 64) = of_int (k * 64) / 64"
    unfolding float_exact_def by blast
  then show ?thesis by simp
qed

lemma float_exact_small:
  assumes "float_exact fl"
  shows "fl 0 = 0" "fl 1 = 1" "fl 4 = 4" "fl 8 = 8" "fl 255 = 255"
  using float_exact_int [OF assms, of 0] float_exact_int [OF assms, of 1]
    float_exact_int [OF assms, of 4] float_exact_int [OF assms, of 8]
    float_exact_int [OF assms, of 255]
  by simp_all

lemma spec_avg_uniform:
  assumes "x < w" "y < h" "0 < d"
  shows "spec_avg_brightness fl (uniform_image w h v) d x y = fl (of_nat (unat v))"
proof -
  let ?x1 = "min (x + d) w" and ?y1 = "min (y + d) h"
  define n where "n = (?x1 - x) * (?y1 - y)"
  have "(\<Sum>i = y..<?y1. \<Sum>j = x..<?x1. unat (pixels (uniform_image w h v) ! i ! j)) =
          (\<Sum>i = y..<?y1. \<Sum>j = x..<?x1. unat v)"
    by (intro sum.cong refl) (simp add: uniform_pixel)
  also have "\<dots> = n * unat v"
    by (simp add: n_def)
  finally have s: "(\<Sum>i = y..<?y1. \<Sum>j = x..<?x1. unat (pixels (uniform_image w h v) ! i ! j)) =
          n * unat v" .
  have n: "0 < n"
    using assms by (simp add: n_def)
  have "spec_avg_brightness fl (uniform_image w h v) d x y =
          fl (of_nat (n * unat v) / of_nat n)"
    unfolding spec_avg_brightness_def Let_def uniform_size n_def [symmetric] by (simp only: s)
  also have "(of_nat (n * unat v) / of_nat n :: rat) = of_nat (unat v)"
    using n by simp
  finally show ?thesis .
qed

lemma float_mono_exact: "float_mono exact"
  by (simp add: float_mono_def exact_def)

section \<open>The claims\<close>

subsection \<open>C2: the dither output, pixel by pixel\<close>

text \<open>
  Claim C2. For every source grid and every pixel \<open>(x, y)\<close>, the Bayer dither output pixel
  is 255 if \<open>source[y][x] > matrix[y mod 8][x mod 8] * 255 / 64\<close> and 0 otherwise, the
  inequality strict, where \<open>matrix\<close> is the 8 by 8 matrix of section 6 of the
  specification. The thresholds are computed in floating point; they are the exact
  quotients because each is a float (\<open>float_exact\<close>).
\<close>

theorem dither_pixel:
  assumes "float_exact fl" "wf_image img" "y < height img" "x < width img"
  shows "pixels (bayer_dither fl img) ! y ! x =
           (if of_nat (unat (pixels img ! y ! x)) >
                 (of_nat (spec_matrix ! (y mod 8) ! (x mod 8)) * 255 / 64 :: rat)
            then 255 else 0)"
proof -
  from assms have ly: "y < length (pixels img)"
    by (simp add: wf_image_def)
  with assms have lx: "x < length (pixels img ! y)"
    by (simp add: wf_image_def list_all_length)
  have "bayer_matrix fl ! (y mod 8) ! (x mod 8) =
          of_nat (spec_matrix ! (y mod 8) ! (x mod 8)) * 255 / 64"
    using assms(1) by (intro bayer_matrix_entry) simp_all
  with assms ly lx show ?thesis
    by (simp add: bayer_dither_rows)
qed

text \<open>
  At column 1 of row 0 the matrix holds 32, the threshold is 127.5, and a sample of 128
  is above it.
\<close>

theorem dither_pixel_witness:
  "float_exact exact \<and> wf_image (uniform_image 9 3 128) \<and>
   (0::nat) < height (uniform_image 9 3 128) \<and> (1::nat) < width (uniform_image 9 3 128) \<and>
   pixels (bayer_dither exact (uniform_image 9 3 128)) ! 0 ! 1 = 255"
proof -
  have h: "(0::nat) < height (uniform_image 9 3 128)" "(1::nat) < width (uniform_image 9 3 128)"
    by (simp_all add: uniform_size)
  have m: "spec_matrix ! (0 mod 8) ! (1 mod 8) = 32"
    by (simp add: spec_matrix_def)
  have u: "pixels (uniform_image 9 3 128) ! 0 ! 1 = 128"
    by (simp add: uniform_pixel)
  have "pixels (bayer_dither exact (uniform_image 9 3 128)) ! 0 ! 1 =
          (if of_nat (unat (128 :: pixel)) > (of_nat 32 * 255 / 64 :: rat) then 255 else 0)"
    using dither_pixel [OF float_exact_exact uniform_wf h] by (simp only: m u)
  then have "pixels (bayer_dither exact (uniform_image 9 3 128)) ! 0 ! 1 = 255"
    by simp
  with h show ?thesis
    by (simp add: float_exact_exact uniform_wf)
qed

subsection \<open>C3: the posterize output, pixel by pixel\<close>

text \<open>
  Claim C3. For every source grid and integer threshold in \<open>[0, 255]\<close>, posterize maps every
  pixel to 255 if \<open>source[y][x] > threshold\<close> and to 0 otherwise; a pixel equal to the
  threshold yields 0 and a pixel of value \<open>threshold + 1\<close> yields 255.
\<close>

theorem posterize_threshold:
  assumes "wf_image img" "y < height img" "x < width img" "0 \<le> t" "t \<le> 255"
  shows "pixels (posterize img t) ! y ! x =
           (if uint (pixels img ! y ! x) > t then 255 else 0) \<and>
         (uint (pixels img ! y ! x) = t \<longrightarrow> pixels (posterize img t) ! y ! x = 0) \<and>
         (uint (pixels img ! y ! x) = t + 1 \<longrightarrow> pixels (posterize img t) ! y ! x = 255)"
  using posterize_pixel [OF assms(1-3), of t] by simp

text \<open>Scenario C of the specification: gray 128 against the threshold 128 is black.\<close>

theorem posterize_threshold_witness:
  "wf_image (uniform_image 16 16 128) \<and>
   (3::nat) < height (uniform_image 16 16 128) \<and> (5::nat) < width (uniform_image 16 16 128) \<and>
   (0::int) \<le> 128 \<and> (128::int) \<le> 255 \<and>
   uint (pixels (uniform_image 16 16 128) ! 3 ! 5) = 128 \<and>
   pixels (posterize (uniform_image 16 16 128) 128) ! 3 ! 5 = 0"
proof -
  have h: "(3::nat) < height (uniform_image 16 16 128)" "(5::nat) < width (uniform_image 16 16 128)"
    by (simp_all add: uniform_size)
  have u: "uint (pixels (uniform_image 16 16 128) ! 3 ! 5) = 128"
    by (simp add: uniform_pixel)
  have t: "(0::int) \<le> 128" "(128::int) \<le> 255"
    by simp_all
  from posterize_threshold [OF uniform_wf h t] u
  have "pixels (posterize (uniform_image 16 16 128) 128) ! 3 ! 5 = 0"
    by blast
  with h u show ?thesis
    by (simp add: uniform_wf)
qed

subsection \<open>C5: dither and posterize are one-bit\<close>

text \<open>
  Claim C5. For every source grid, and for posterize every threshold, every pixel of the
  dither output and every pixel of the posterize output is either 0 or 255.
\<close>

theorem binary_outputs:
  "binary_image (bayer_dither fl img) \<and> binary_image (posterize img t)"
  by (simp add: bayer_dither_binary posterize_binary)

subsection \<open>C7: posterize takes any threshold\<close>



subsection \<open>C4: the size of the output\<close>



subsection \<open>C6: when halftone fails\<close>




subsection \<open>C8: a darker cell never gets a smaller dot\<close>

text \<open>
  Claim C8. For fixed \<open>dot_size \<ge> 1\<close> and \<open>scale \<ge> 1\<close> and two cells with
  \<open>avg_brightness1 < avg_brightness2\<close>, the radius formula gives
  \<open>dot_radius1 \<ge> dot_radius2\<close>. It holds in floating point as in exact arithmetic: all it
  needs of the rounding is that it keeps the order (\<open>float_mono\<close>).
\<close>

theorem radius_monotone:
  assumes "float_mono fl" "1 \<le> dot_size" "1 \<le> scale" "avg_brightness1 < avg_brightness2"
  shows "dot_radius fl dot_size scale avg_brightness2 \<le> dot_radius fl dot_size scale avg_brightness1"
proof -
  from assms(1) have mono: "\<And>a b. a \<le> b \<Longrightarrow> fl a \<le> fl b" and z: "0 \<le> fl 0"
    by (simp_all add: float_mono_def)
  have "(0::rat) \<le> of_int dot_size" "(0::rat) \<le> of_int scale"
    using assms(2,3) by simp_all
  then have "(0::rat) \<le> of_int (dot_size * scale) / 2" by simp
  then have "fl 0 \<le> fl (of_int (dot_size * scale) / 2)" by (rule mono)
  with z have half: "0 \<le> fl (of_int (dot_size * scale) / 2)" by simp
  have "fl (255 - avg_brightness2) \<le> fl (255 - avg_brightness1)"
    using assms(4) by (intro mono) simp
  then have "fl (255 - avg_brightness2) / 255 \<le> fl (255 - avg_brightness1) / 255"
    by (simp add: divide_right_mono)
  then have "fl (fl (255 - avg_brightness2) / 255) \<le> fl (fl (255 - avg_brightness1) / 255)"
    by (rule mono)
  then have "fl (fl (255 - avg_brightness2) / 255) * fl (of_int (dot_size * scale) / 2)
              \<le> fl (fl (255 - avg_brightness1) / 255) * fl (of_int (dot_size * scale) / 2)"
    using half by (rule mult_right_mono)
  then show ?thesis
    unfolding dot_radius_def by (rule mono)
qed

text \<open>A white cell against a black one, \<open>dot_size = 8\<close>: radius 0 against radius 4.\<close>

theorem radius_monotone_witness:
  "float_mono exact \<and> (1::int) \<le> 8 \<and> (1::int) \<le> 1 \<and> (0::rat) < 255 \<and>
   dot_radius exact 8 1 255 \<le> dot_radius exact 8 1 0 \<and>
   dot_radius exact 8 1 0 = 4 \<and> dot_radius exact 8 1 255 = 0"
proof -
  have "dot_radius exact 8 1 255 \<le> dot_radius exact 8 1 0"
    using radius_monotone [OF float_mono_exact, of 8 1 0 255] by simp
  then show ?thesis
    by (simp add: float_mono_exact dot_radius_def exact_def)
qed

subsection \<open>C10: halftone is one-bit too\<close>



subsection \<open>C1: halftone is the renderer of the specification\<close>



subsection \<open>C9: scenario F\<close>

text \<open>
  Claim C9. For the all-black 8 by 8 source with \<open>dot_size = 8\<close> and \<open>scale = 1\<close>, halftone
  draws exactly one filled circle, centred at \<open>(4, 4)\<close> with radius 4, onto the otherwise
  white 8 by 8 canvas. Every number on the way is a small integer, hence a float, so the
  result is the same in floating point as in exact arithmetic.
\<close>

theorem scenario_f:
  assumes "float_exact fl"
  shows "halftone fl inside (uniform_image 8 8 0) 8 1 =
           Inr (filled_circle exact inside 4 4 4 (uniform_image 8 8 255))"
proof -
  let ?img = "uniform_image 8 8 0"
  note e = float_exact_small [OF assms]
  have r: "py_range 0 (int (height ?img)) 8 = Inr [0]" "py_range 0 (int (width ?img)) 8 = Inr [0]"
    by (simp_all add: py_range_def uniform_size)
  have avg: "spec_avg_brightness fl ?img 8 0 0 = 0"
    by (simp add: spec_avg_uniform e)
  have rad: "spec_dot_radius fl 8 1 0 = 4"
    by (simp add: spec_dot_radius_def e)
  have cen: "spec_center fl 0 8 1 = 4"
    by (simp add: spec_center_def e)
  have c: "halftone_cell fl inside ?img 8 1 0 0 out = spec_dot fl inside ?img 8 1 (0, 0) out"
    for out
    using halftone_cell_spec
      [where x = 0 and y = 0 and ds = 8 and sc = 1 and img = ?img and fl = fl
         and inside = inside and out = out]
    by (simp add: uniform_wf uniform_size)
  have cell: "halftone_cell fl inside ?img 8 1 0 0 out = filled_circle exact inside 4 4 4 out"
    for out
    unfolding c spec_dot_def Let_def fst_conv snd_conv avg rad cen filled_circle_def exact_def
    by (simp add: e)
  have "halftone fl inside ?img 8 1 =
          Inr (fold (\<lambda>y. fold (halftone_cell fl inside ?img 8 1 y) [0]) [0]
                 (uniform_image (width ?img * nat 1) (height ?img * nat 1) 255))"
    using r by (intro halftone_unfold) simp_all
  then show ?thesis
    by (simp add: cell uniform_size)
qed

theorem scenario_f_witness:
  "float_exact exact \<and>
   halftone exact centre_inside (uniform_image 8 8 0) 8 1 =
     Inr (filled_circle exact centre_inside 4 4 4 (uniform_image 8 8 255)) \<and>
   filled_circle exact centre_inside 4 4 4 (uniform_image 8 8 255) =
     \<lparr>width = 8, height = 8,
      pixels =
        [[255, 255, 0, 0, 0, 0, 255, 255], [255, 0, 0, 0, 0, 0, 0, 255],
         [0, 0, 0, 0, 0, 0, 0, 0], [0, 0, 0, 0, 0, 0, 0, 0],
         [0, 0, 0, 0, 0, 0, 0, 0], [0, 0, 0, 0, 0, 0, 0, 0],
         [255, 0, 0, 0, 0, 0, 0, 255], [255, 255, 0, 0, 0, 0, 255, 255]]\<rparr>"
proof -
  have v: "filled_circle exact centre_inside 4 4 4 (uniform_image 8 8 255) =
     \<lparr>width = 8, height = 8,
      pixels =
        [[255, 255, 0, 0, 0, 0, 255, 255], [255, 0, 0, 0, 0, 0, 0, 255],
         [0, 0, 0, 0, 0, 0, 0, 0], [0, 0, 0, 0, 0, 0, 0, 0],
         [0, 0, 0, 0, 0, 0, 0, 0], [0, 0, 0, 0, 0, 0, 0, 0],
         [255, 0, 0, 0, 0, 0, 0, 255], [255, 255, 0, 0, 0, 0, 255, 255]]\<rparr>"
    by code_simp
  show ?thesis
    by (intro conjI float_exact_exact scenario_f [OF float_exact_exact] v)
qed

end
